theory Spec2Isabelle
  imports Main
begin

section \<open>Python strings\<close>

text \<open>
  A Python \<^verbatim>\<open>str\<close> is a sequence of Unicode code points, so it is modelled as a list
  of naturals (the dictionary's text is Chinese and English; a byte string would not
  let \<^verbatim>\<open>str.strip\<close> see the ideographic space U+3000). \<open>ustr\<close> writes an ASCII
  literal of the source as such a list.
\<close>

type_synonym pystr = "nat list"

definition ustr :: "string \<Rightarrow> pystr" where
  "ustr s = map of_char s"

text \<open>
  \<^verbatim>\<open>str.isspace\<close> on one code point; \<^verbatim>\<open>str.strip()\<close> and the regular expression
  class \<^verbatim>\<open>\s\<close> (on \<^verbatim>\<open>str\<close> patterns) use the same table of CPython.
\<close>

definition isspace :: "nat \<Rightarrow> bool" where
  "isspace c \<longleftrightarrow>
     c \<in> {9, 10, 11, 12, 13, 28, 29, 30, 31, 32, 133, 160, 5760,
          8232, 8233, 8239, 8287, 12288} \<or> (8192 \<le> c \<and> c \<le> 8202)"

definition strip :: "pystr \<Rightarrow> pystr" where
  "strip s = rev (dropWhile isspace (rev (dropWhile isspace s)))"

text \<open>\<^verbatim>\<open>re.sub(r'\s+', ' ', s)\<close>: every maximal run of whitespace becomes one space.\<close>

function re_sub_ws :: "pystr \<Rightarrow> pystr" where
  "re_sub_ws [] = []"
| "re_sub_ws (c # cs) =
     (if isspace c then 32 # re_sub_ws (dropWhile isspace cs) else c # re_sub_ws cs)"
  by pat_completeness auto
termination
  by (relation "measure length") (auto simp: length_dropWhile_le less_Suc_eq_le)

text \<open>
  \<^verbatim>\<open>str.upper\<close>, on ASCII letters. The source applies it only to a member of
  \<open>KEEP_SL_TYPES\<close>, four ASCII words, where this is what CPython computes.
\<close>

definition upper :: "pystr \<Rightarrow> pystr" where
  "upper s = map (\<lambda>c. if 97 \<le> c \<and> c \<le> 122 then c - 32 else c) s"

section \<open>The markup tree of BeautifulSoup\<close>

text \<open>
  The tree that \<^verbatim>\<open>BeautifulSoup(html_content, 'html.parser')\<close> builds: a text node
  (\<^verbatim>\<open>NavigableString\<close>) or a \<^verbatim>\<open>Tag\<close> with its name, its attribute dictionary and its
  children. \<open>tid\<close> is the identity of the Python object: the source keeps references to
  tags in lists (\<^verbatim>\<open>find_all\<close>) and mutates the tree between their uses, so a reference
  is resolved in the tree as it is when it is used. In a parsed tree the identities are
  pairwise distinct. Comments and declarations are left out of the tree: no search
  matches them and \<^verbatim>\<open>get_text\<close> passes over them.
\<close>

datatype node =
    NavigableString pystr
  | Tag (tid: nat) (name: pystr) (attrs: "(pystr \<times> pystr) list") (contents: "node list")

text \<open>\<^verbatim>\<open>Tag.descendants\<close>: every node below a tag, in document order.\<close>

fun descendants :: "node \<Rightarrow> node list" where
  "descendants (NavigableString s) = []"
| "descendants (Tag i n a cs) = concat (map (\<lambda>c. c # descendants c) cs)"

fun is_tag :: "pystr list \<Rightarrow> node \<Rightarrow> bool" where
  "is_tag ns (NavigableString s) = False"
| "is_tag ns (Tag i n a cs) = (n \<in> set ns)"

text \<open>
  \<^verbatim>\<open>tag.find_all(names)\<close>, \<^verbatim>\<open>tag.find_all(name, recursive=False)\<close> and
  \<^verbatim>\<open>tag.find(name)\<close> (the first match of \<^verbatim>\<open>find_all\<close>, or \<^verbatim>\<open>None\<close>).
\<close>

definition find_all :: "pystr list \<Rightarrow> node \<Rightarrow> node list" where
  "find_all ns t = filter (is_tag ns) (descendants t)"

fun children :: "node \<Rightarrow> node list" where
  "children (NavigableString s) = []"
| "children (Tag i n a cs) = cs"

definition find_all_direct :: "pystr \<Rightarrow> node \<Rightarrow> node list" where
  "find_all_direct n t = filter (is_tag [n]) (children t)"

definition find_tag :: "pystr \<Rightarrow> node \<Rightarrow> node option" where
  "find_tag n t = List.find (is_tag [n]) (descendants t)"

text \<open>
  \<^verbatim>\<open>tag.get_text()\<close> joins the strings below the tag; with \<^verbatim>\<open>strip=True\<close> each string
  is stripped first and dropped when nothing is left.
\<close>

fun string_of :: "node \<Rightarrow> pystr list" where
  "string_of (NavigableString s) = [s]"
| "string_of (Tag i n a cs) = []"

definition all_strings :: "node \<Rightarrow> pystr list" where
  "all_strings t = concat (map string_of (descendants t))"

definition get_text :: "node \<Rightarrow> pystr" where
  "get_text t = concat (all_strings t)"

definition get_text_strip :: "node \<Rightarrow> pystr" where
  "get_text_strip t = concat (filter (\<lambda>s. s \<noteq> []) (map strip (all_strings t)))"

text \<open>
  \<^verbatim>\<open>for tag in t.find_all(names): tag.decompose()\<close>: every descendant of \<open>t\<close> with one
  of the names is taken out of the tree with all it holds. A match below another match
  is destroyed with it, and to decompose it again changes nothing. The strings left
  and right of a removed tag stay separate strings.
\<close>

fun decompose_all :: "pystr list \<Rightarrow> node \<Rightarrow> node" where
  "decompose_all ns (NavigableString s) = NavigableString s"
| "decompose_all ns (Tag i n a cs) =
     Tag i n a (map (decompose_all ns) (filter (\<lambda>c. \<not> is_tag ns c) cs))"

text \<open>
  Resolving a reference: the tag with identity \<open>i\<close> in the tree under \<open>soup\<close>, if it is
  still there. \<open>modify\<close> is a mutation of that object in place.
\<close>

fun has_tid :: "nat \<Rightarrow> node \<Rightarrow> bool" where
  "has_tid i (NavigableString s) = False"
| "has_tid i (Tag j n a cs) = (i = j)"

definition lookup :: "nat \<Rightarrow> node \<Rightarrow> node option" where
  "lookup i soup = List.find (has_tid i) (soup # descendants soup)"

fun modify :: "nat \<Rightarrow> (node \<Rightarrow> node) \<Rightarrow> node \<Rightarrow> node" where
  "modify i f (NavigableString s) = NavigableString s"
| "modify i f (Tag j n a cs) =
     (if i = j then f (Tag j n a cs) else Tag j n a (map (modify i f) cs))"

section \<open>The collocation block parser\<close>

record example =
  en :: pystr
  cn :: pystr

record item =
  words :: "pystr list"
  chn :: pystr
  examples :: "example list"

text \<open>
  One round of the loop over the direct \<^verbatim>\<open>cl\<close> children of a sub-group: the gloss is
  read from the first \<^verbatim>\<open>chn\<close> below the phrase node before the \<^verbatim>\<open>chn\<close> and \<^verbatim>\<open>chnsep\<close>
  tags are decomposed; the phrase is the text that is left.
\<close>

definition cl_step :: "node \<Rightarrow> pystr list \<Rightarrow> pystr \<Rightarrow> node \<times> pystr list \<times> pystr" where
  "cl_step cl collocations chn_text =
     (let chn_text' = (case find_tag (ustr ''chn'') cl of
                         Some c \<Rightarrow> get_text_strip c
                       | None \<Rightarrow> chn_text);
          cl' = decompose_all [ustr ''chn'', ustr ''chnsep''] cl;
          cl_text = get_text_strip cl'
      in (cl', if cl_text \<noteq> [] then collocations @ [cl_text] else collocations, chn_text'))"

text \<open>
  The loop runs over the children of the sub-group: the \<^verbatim>\<open>cl\<close> tags among them are
  the list \<^verbatim>\<open>find_all('cl', recursive=False)\<close>, each is mutated where it stands, and
  the other children are left as they are.
\<close>

fun cl_loop :: "node list \<Rightarrow> pystr list \<Rightarrow> pystr \<Rightarrow> node list \<times> pystr list \<times> pystr" where
  "cl_loop [] collocations chn_text = ([], collocations, chn_text)"
| "cl_loop (c # cs) collocations chn_text =
     (if is_tag [ustr ''cl''] c
      then (case cl_step c collocations chn_text of
              (c', collocations', chn_text') \<Rightarrow>
                (case cl_loop cs collocations' chn_text' of
                   (cs', r) \<Rightarrow> (c' # cs', r)))
      else (case cl_loop cs collocations chn_text of
              (cs', r) \<Rightarrow> (c # cs', r)))"

text \<open>
  One round of the loop over the direct \<^verbatim>\<open>x-blk\<close> children: the example node is the
  first \<^verbatim>\<open>x\<close> below the block; its secondary text is read first, then the \<^verbatim>\<open>chn\<close>,
  \<^verbatim>\<open>chnsep\<close> and \<^verbatim>\<open>fthzmark\<close> tags below it are decomposed and the English text is
  read. An example with no English text is not appended.
\<close>

definition x_step :: "node \<Rightarrow> example list \<Rightarrow> node \<times> example list" where
  "x_step x_blk exs =
     (case find_tag (ustr ''x'') x_blk of
        None \<Rightarrow> (x_blk, exs)
      | Some x_elem \<Rightarrow>
          (let ex_cn = (case find_tag (ustr ''chn'') x_elem of
                          Some c \<Rightarrow> get_text_strip c
                        | None \<Rightarrow> []);
               x' = decompose_all [ustr ''chn'', ustr ''chnsep'', ustr ''fthzmark''] x_elem;
               ex_en = get_text_strip x'
           in (modify (tid x_elem) (\<lambda>_. x') x_blk,
               if ex_en \<noteq> [] then exs @ [\<lparr>en = ex_en, cn = ex_cn\<rparr>] else exs)))"

fun x_loop :: "node list \<Rightarrow> example list \<Rightarrow> node list \<times> example list" where
  "x_loop [] exs = ([], exs)"
| "x_loop (c # cs) exs =
     (if is_tag [ustr ''x-blk''] c
      then (case x_step c exs of
              (c', exs') \<Rightarrow> (case x_loop cs exs' of (cs', r) \<Rightarrow> (c' # cs', r)))
      else (case x_loop cs exs of (cs', r) \<Rightarrow> (c # cs', r)))"

text \<open>
  \<^verbatim>\<open>_parse_sb_g(sb_g)\<close>: the item, or \<^verbatim>\<open>None\<close> when no phrase was found (then the
  examples are not looked at), and the sub-group as the call leaves it.
\<close>

fun parse_sb_g :: "node \<Rightarrow> item option \<times> node" where
  "parse_sb_g (NavigableString s) = (None, NavigableString s)"
| "parse_sb_g (Tag i n a cs) =
     (case cl_loop cs [] [] of
        (cs1, collocations, chn_text) \<Rightarrow>
          if collocations = [] then (None, Tag i n a cs1)
          else (case x_loop cs1 [] of
                  (cs2, exs) \<Rightarrow>
                    (Some \<lparr>words = collocations, chn = chn_text, examples = exs\<rparr>,
                     Tag i n a cs2)))"

text \<open>
  What section 4.2 of the specification asks of one sub-group, written over the node as
  the call receives it and without mutation: the text of a node with some spans left
  out, the phrase of a phrase node, its gloss, the example of an example block.
\<close>

fun descendants_excluding :: "pystr list \<Rightarrow> node \<Rightarrow> node list" where
  "descendants_excluding ns (NavigableString s) = []"
| "descendants_excluding ns (Tag i n a cs) =
     concat (map (\<lambda>c. if is_tag ns c then [] else c # descendants_excluding ns c) cs)"

definition strings_excluding :: "pystr list \<Rightarrow> node \<Rightarrow> pystr list" where
  "strings_excluding ns t = concat (map string_of (descendants_excluding ns t))"

definition text_excluding :: "pystr list \<Rightarrow> node \<Rightarrow> pystr" where
  "text_excluding ns t =
     concat (filter (\<lambda>s. s \<noteq> []) (map strip (strings_excluding ns t)))"

text \<open>Some string of the list has a character that is not whitespace.\<close>

definition has_text :: "pystr list \<Rightarrow> bool" where
  "has_text ss = list_ex (\<lambda>s. list_ex (\<lambda>c. \<not> isspace c) s) ss"

definition phrase_of :: "node \<Rightarrow> pystr" where
  "phrase_of cl = text_excluding [ustr ''chn'', ustr ''chnsep''] cl"

definition gloss_of :: "node \<Rightarrow> pystr option" where
  "gloss_of cl = map_option get_text_strip (find_tag (ustr ''chn'') cl)"

definition example_of :: "node \<Rightarrow> example option" where
  "example_of x_blk =
     (case find_tag (ustr ''x'') x_blk of
        None \<Rightarrow> None
      | Some x_elem \<Rightarrow>
          (let e = text_excluding [ustr ''chn'', ustr ''chnsep'', ustr ''fthzmark''] x_elem
           in if e = [] then None
              else Some \<lparr>en = e,
                         cn = (case find_tag (ustr ''chn'') x_elem of
                                 Some c \<Rightarrow> get_text_strip c
                               | None \<Rightarrow> [])\<rparr>))"

definition sb_words :: "node \<Rightarrow> pystr list" where
  "sb_words sb = filter (\<lambda>s. s \<noteq> []) (map phrase_of (find_all_direct (ustr ''cl'') sb))"

definition sb_glosses :: "node \<Rightarrow> pystr list" where
  "sb_glosses sb = List.map_filter gloss_of (find_all_direct (ustr ''cl'') sb)"

definition sb_examples :: "node \<Rightarrow> example list" where
  "sb_examples sb = List.map_filter example_of (find_all_direct (ustr ''x-blk'') sb)"

definition last_gloss :: "pystr \<Rightarrow> pystr list \<Rightarrow> pystr" where
  "last_gloss g gs = (if gs = [] then g else last gs)"

section \<open>The sense extractor\<close>

record group =
  category :: pystr
  items :: "item list"

text \<open>
  A card as \<^verbatim>\<open>parse_collocation_html\<close> builds it; \<open>freq_rank\<close> is the key that
  \<^verbatim>\<open>main\<close> adds afterwards (the string \<^verbatim>\<open>str(rank)\<close>), \<open>None\<close> while the key is absent.
\<close>

record card =
  word :: pystr
  pos :: pystr
  sense_num :: pystr
  def_en :: pystr
  def_cn :: pystr
  collocation_groups :: "group list"
  freq_rank :: "pystr option"

definition KEEP_SL_TYPES :: "pystr set" where
  "KEEP_SL_TYPES = {ustr ''verbs'', ustr ''verbandhwd'', ustr ''hwdandverb'', ustr ''prep''}"

text \<open>
  A tag that an earlier \<^verbatim>\<open>decompose()\<close> destroyed is no longer in the tree. The Python
  object is still in the list that \<^verbatim>\<open>find_all\<close> returned, emptied. The library leaves
  the use of such an object undefined; what its code does is modelled: the contents are
  the empty list, so \<^verbatim>\<open>find\<close> and \<^verbatim>\<open>find_all\<close> return nothing, and the attribute
  dictionary is gone, so \<^verbatim>\<open>get\<close> raises \<^verbatim>\<open>AttributeError\<close>.
\<close>

datatype error = AttributeError

text \<open>\<^verbatim>\<open>item = _parse_sb_g(sb_g)\<close> on a reference, with the mutation written back.\<close>

definition call_parse_sb_g :: "node \<Rightarrow> nat \<Rightarrow> item option \<times> node" where
  "call_parse_sb_g soup r =
     (case lookup r soup of
        None \<Rightarrow> (None, soup)
      | Some sb_g \<Rightarrow>
          (case parse_sb_g sb_g of (it, sb_g') \<Rightarrow> (it, modify r (\<lambda>_. sb_g') soup)))"

fun sb_loop :: "nat list \<Rightarrow> node \<Rightarrow> item list \<Rightarrow> item list \<times> node" where
  "sb_loop [] soup collocation_items = (collocation_items, soup)"
| "sb_loop (r # rs) soup collocation_items =
     (case call_parse_sb_g soup r of
        (None, soup') \<Rightarrow> sb_loop rs soup' collocation_items
      | (Some it, soup') \<Rightarrow> sb_loop rs soup' (collocation_items @ [it]))"

text \<open>\<^verbatim>\<open>tag.get(key, default)\<close> on the attribute dictionary.\<close>

definition attr_get :: "node \<Rightarrow> pystr \<Rightarrow> pystr \<Rightarrow> pystr" where
  "attr_get t k d = (case map_of (attrs t) k of Some v \<Rightarrow> v | None \<Rightarrow> d)"

text \<open>The body of the loop over the \<^verbatim>\<open>sl-g-blk\<close> blocks of an entry.\<close>

definition blk_step :: "node \<Rightarrow> nat \<Rightarrow> error + (group option \<times> node)" where
  "blk_step soup r =
     (case lookup r soup of
        None \<Rightarrow> Inl AttributeError
      | Some blk \<Rightarrow>
          (let sl_type = attr_get blk (ustr ''sl'') []
           in if sl_type \<notin> KEEP_SL_TYPES then Inr (None, soup)
              else
                (let category_title =
                       strip (re_sub_ws
                         (case find_tag (ustr ''sl-g-head'') blk of
                            Some head_elem \<Rightarrow> get_text head_elem
                          | None \<Rightarrow> upper sl_type));
                     sb_gs = map tid (find_all [ustr ''sb-g''] blk)
                 in (case sb_loop sb_gs soup [] of
                       (collocation_items, soup') \<Rightarrow>
                         Inr (if collocation_items \<noteq> []
                              then Some \<lparr>category = category_title,
                                         items = collocation_items\<rparr>
                              else None,
                              soup')))))"

fun blk_loop :: "nat list \<Rightarrow> node \<Rightarrow> group list \<Rightarrow> error + (group list \<times> node)" where
  "blk_loop [] soup gs = Inr (gs, soup)"
| "blk_loop (r # rs) soup gs =
     (case blk_step soup r of
        Inl e \<Rightarrow> Inl e
      | Inr (None, soup') \<Rightarrow> blk_loop rs soup' gs
      | Inr (Some g, soup') \<Rightarrow> blk_loop rs soup' (gs @ [g]))"

text \<open>
  The \<^verbatim>\<open>if head:\<close> block: part of speech, sense number and the two definitions. The
  Chinese definition is read from the first \<^verbatim>\<open>chn\<close> below \<^verbatim>\<open>def\<close>; then the two loops
  decompose the \<^verbatim>\<open>chn\<close> and the \<^verbatim>\<open>chnsep\<close> tags, and the English definition is the text
  that is left.
\<close>

definition head_fields :: "node \<Rightarrow> node \<Rightarrow> (pystr \<times> pystr \<times> pystr \<times> pystr) \<times> node" where
  "head_fields soup head =
     (let pos = (case find_tag (ustr ''p'') head of
                   Some p_elem \<Rightarrow> get_text_strip p_elem | None \<Rightarrow> []);
          sense_num = (case find_tag (ustr ''n-num'') head of
                         Some n_num_elem \<Rightarrow> get_text_strip n_num_elem | None \<Rightarrow> [])
      in (case find_tag (ustr ''def'') head of
            None \<Rightarrow> ((pos, sense_num, [], []), soup)
          | Some def_elem \<Rightarrow>
              (let def_cn = (case find_tag (ustr ''chn'') def_elem of
                               Some chn_elem \<Rightarrow> get_text_strip chn_elem | None \<Rightarrow> []);
                   def_elem' = decompose_all [ustr ''chnsep'']
                                 (decompose_all [ustr ''chn''] def_elem);
                   def_en = get_text_strip def_elem'
               in ((pos, sense_num, def_en, def_cn),
                   modify (tid def_elem) (\<lambda>_. def_elem') soup))))"

text \<open>
  \<^verbatim>\<open>head = entry.find('head')\<close> with the four fields, empty strings when the entry
  has no \<^verbatim>\<open>head\<close>; and the references \<^verbatim>\<open>entry.find_all('sl-g-blk')\<close>, taken in the
  tree as the definition's mutation leaves it.
\<close>

definition entry_head :: "node \<Rightarrow> node \<Rightarrow> (pystr \<times> pystr \<times> pystr \<times> pystr) \<times> node" where
  "entry_head soup entry =
     (case find_tag (ustr ''head'') entry of
        Some head \<Rightarrow> head_fields soup head
      | None \<Rightarrow> (([], [], [], []), soup))"

definition entry_blks :: "node \<Rightarrow> nat \<Rightarrow> nat list" where
  "entry_blks soup r =
     (case lookup r soup of
        Some entry \<Rightarrow> map tid (find_all [ustr ''sl-g-blk''] entry)
      | None \<Rightarrow> [])"

text \<open>
  The body of the loop over the entries, up to the test of \<^verbatim>\<open>collocation_groups\<close>: the
  candidate card of the entry. An entry that was destroyed has no \<^verbatim>\<open>h\<close>, no \<^verbatim>\<open>head\<close>
  and no blocks.
\<close>

definition entry_collect :: "node \<Rightarrow> pystr \<Rightarrow> nat \<Rightarrow> error + (card \<times> node)" where
  "entry_collect soup w r =
     (case lookup r soup of
        None \<Rightarrow>
          Inr (\<lparr>word = w, pos = [], sense_num = [], def_en = [], def_cn = [],
                collocation_groups = [], freq_rank = None\<rparr>, soup)
      | Some entry \<Rightarrow>
          (let headword = (case find_tag (ustr ''h'') entry of
                             Some h_elem \<Rightarrow> get_text_strip h_elem | None \<Rightarrow> w)
           in (case entry_head soup entry of
                 ((p, sn, de, dc), soup1) \<Rightarrow>
                   (case blk_loop (entry_blks soup1 r) soup1 [] of
                      Inl e \<Rightarrow> Inl e
                    | Inr (gs, soup2) \<Rightarrow>
                        Inr (\<lparr>word = headword, pos = p, sense_num = sn, def_en = de,
                              def_cn = dc, collocation_groups = gs,
                              freq_rank = None\<rparr>, soup2)))))"

text \<open>\<^verbatim>\<open>if not collocation_groups: continue\<close>, else the card is appended.\<close>

definition entry_step :: "node \<Rightarrow> pystr \<Rightarrow> nat \<Rightarrow> error + (card option \<times> node)" where
  "entry_step soup w r =
     (case entry_collect soup w r of
        Inl e \<Rightarrow> Inl e
      | Inr (c, soup') \<Rightarrow> Inr (if collocation_groups c = [] then None else Some c, soup'))"

fun entry_loop :: "nat list \<Rightarrow> node \<Rightarrow> pystr \<Rightarrow> card list \<Rightarrow> error + (card list \<times> node)" where
  "entry_loop [] soup w cards = Inr (cards, soup)"
| "entry_loop (r # rs) soup w cards =
     (case entry_step soup w r of
        Inl e \<Rightarrow> Inl e
      | Inr (None, soup') \<Rightarrow> entry_loop rs soup' w cards
      | Inr (Some c, soup') \<Rightarrow> entry_loop rs soup' w (cards @ [c]))"

text \<open>The loop over \<^verbatim>\<open>soup.find_all('entry')\<close>, with the tree as the loop leaves it.\<close>

definition parse_soup :: "node \<Rightarrow> pystr \<Rightarrow> error + (card list \<times> node)" where
  "parse_soup soup w =
     (let entries = map tid (find_all [ustr ''entry''] soup)
      in if entries = [] then Inr ([], soup) else entry_loop entries soup w [])"

text \<open>
  \<^verbatim>\<open>parse_collocation_html(html_content, word)\<close>. The parser of the library is a
  parameter: \<open>BeautifulSoup html_content\<close> is the tree it builds, a new one at every
  call. The tree is local to the call and is dropped when the call returns.
\<close>

definition parse_collocation_html :: "(pystr \<Rightarrow> node) \<Rightarrow> pystr \<Rightarrow> pystr \<Rightarrow> error + card list" where
  "parse_collocation_html BeautifulSoup html_content w =
     (if html_content = [] then Inr []
      else (case parse_soup (BeautifulSoup html_content) w of
              Inl e \<Rightarrow> Inl e
            | Inr (cards, soup') \<Rightarrow> Inr cards))"

text \<open>
  Two calls, one after the other, on the same arguments. The second call parses the
  string again: its tree has the shape of the first one and is made of new objects,
  \<open>f\<close> taking the identity of an object of the first tree to that of its copy in the
  second. \<open>on_soup\<close> carries a renaming through a result that holds a tree.
\<close>

fun rename :: "(nat \<Rightarrow> nat) \<Rightarrow> node \<Rightarrow> node" where
  "rename f (NavigableString s) = NavigableString s"
| "rename f (Tag i n a cs) = Tag (f i) n a (map (rename f) cs)"

definition on_soup :: "(nat \<Rightarrow> nat) \<Rightarrow> error + ('a \<times> node) \<Rightarrow> error + ('a \<times> node)" where
  "on_soup f res = (case res of Inl e \<Rightarrow> Inl e | Inr (x, soup) \<Rightarrow> Inr (x, rename f soup))"

definition parse_twice ::
  "(pystr \<Rightarrow> node) \<Rightarrow> (nat \<Rightarrow> nat) \<Rightarrow> pystr \<Rightarrow> pystr \<Rightarrow>
     (error + card list) \<times> (error + card list)" where
  "parse_twice BeautifulSoup f html_content w =
     (let first = parse_collocation_html BeautifulSoup html_content w;
          second = parse_collocation_html (\<lambda>h. rename f (BeautifulSoup h)) html_content w
      in (first, second))"

section \<open>The card renderer and the batch serializer\<close>

text \<open>\<^verbatim>\<open>sep.join(parts)\<close>.\<close>

fun py_join :: "pystr \<Rightarrow> pystr list \<Rightarrow> pystr" where
  "py_join sep [] = []"
| "py_join sep [x] = x"
| "py_join sep (x # y # ys) = x @ sep @ py_join sep (y # ys)"

text \<open>
  \<^verbatim>\<open>generate_collocations_html(card)\<close>: the loops append to one string; 10022 is the
  code point of the star before an English example.
\<close>

definition render_example :: "example \<Rightarrow> pystr" where
  "render_example ex =
     ustr ''<div class=\"colloc-example\">'' @
     ustr ''<div class=\"ex-en\">'' @ [10022, 32] @ en ex @ ustr ''</div>'' @
     (if cn ex \<noteq> [] then ustr ''<div class=\"ex-cn\">'' @ cn ex @ ustr ''</div>'' else []) @
     ustr ''</div>''"

definition render_item :: "item \<Rightarrow> pystr" where
  "render_item it =
     ustr ''<div class=\"colloc-item\">'' @
     (let words_str =
            py_join (ustr '' <span class=\"sep\">|</span> '')
              (map (\<lambda>w. ustr ''<span class=\"colloc-word\">'' @ w @ ustr ''</span>'') (words it));
          words_str' =
            (if chn it \<noteq> []
             then words_str @ ustr ''<span class=\"colloc-chn\">'' @ chn it @ ustr ''</span>''
             else words_str)
      in ustr ''<div class=\"colloc-words\">'' @ words_str' @ ustr ''</div>'') @
     concat (map render_example (examples it)) @
     ustr ''</div>''"

definition render_group :: "group \<Rightarrow> pystr" where
  "render_group g =
     ustr ''<div class=\"colloc-group\">'' @
     ustr ''<div class=\"colloc-category\">'' @ category g @ ustr ''</div>'' @
     concat (map render_item (items g)) @
     ustr ''</div>''"

definition generate_collocations_html :: "card \<Rightarrow> pystr" where
  "generate_collocations_html c = concat (map render_group (collocation_groups c))"

text \<open>
  The eight fields of one card in \<^verbatim>\<open>generate_anki_import_file\<close>:
  \<^verbatim>\<open>.replace('\n', '').replace('\r', '')\<close> takes the code points 10 and 13 out of the
  fragment, and \<^verbatim>\<open>str(card.get('freq_rank', ''))\<close> is the stored string, or the empty
  string while the key is absent.
\<close>

definition card_fields :: "card \<Rightarrow> pystr list" where
  "card_fields c =
     (let colloc = filter (\<lambda>x. x \<noteq> 13) (filter (\<lambda>x. x \<noteq> 10) (generate_collocations_html c));
          rank = (case freq_rank c of Some s \<Rightarrow> s | None \<Rightarrow> [])
      in [word c, pos c, sense_num c, def_en c, def_cn c, colloc, rank, word c])"

definition generate_anki_import_file :: "card list \<Rightarrow> pystr" where
  "generate_anki_import_file all_cards =
     py_join [10] (map (\<lambda>c. py_join [9] (card_fields c)) all_cards)"

text \<open>
  What a consumer of the file does: \<^verbatim>\<open>text.split(sep)\<close> of Python with a separator of
  one character. The empty string splits into one empty piece.
\<close>

fun py_split :: "nat \<Rightarrow> pystr \<Rightarrow> pystr list" where
  "py_split sep [] = [[]]"
| "py_split sep (c # cs) =
     (if c = sep then [] # py_split sep cs
      else (case py_split sep cs of
              p # ps \<Rightarrow> (c # p) # ps
            | [] \<Rightarrow> [[c]]))"

text \<open>A card none of whose fields holds a tab or a newline.\<close>

definition no_sep :: "pystr \<Rightarrow> bool" where
  "no_sep s \<longleftrightarrow> 9 \<notin> set s \<and> 10 \<notin> set s"

definition clean_card :: "card \<Rightarrow> bool" where
  "clean_card c \<longleftrightarrow> list_all no_sep (card_fields c)"



section \<open>Example documents\<close>

text \<open>
  The sub-group of the scenario of the specification: the phrase \<^verbatim>\<open>accord with\<close> with
  its gloss and one example; a sub-group with three phrases, two of them glossed; a
  sub-group with one phrase and nothing else.
\<close>

definition sb_accord :: node where
  "sb_accord =
     Tag 10 (ustr ''sb-g'') []
       [Tag 11 (ustr ''cl'') []
          [NavigableString (ustr ''accord with ''),
           Tag 12 (ustr ''chn'') [] [NavigableString [31526, 21512]]],
        Tag 13 (ustr ''x-blk'') []
          [Tag 14 (ustr ''x'') []
             [NavigableString (ustr ''It accords with the facts. ''),
              Tag 15 (ustr ''chn'') []
                [NavigableString [36825, 19982, 20107, 23454, 30456, 31526, 12290]]]]]"

definition item_accord :: item where
  "item_accord =
     \<lparr>words = [ustr ''accord with''], chn = [31526, 21512],
      examples = [\<lparr>en = ustr ''It accords with the facts.'',
                   cn = [36825, 19982, 20107, 23454, 30456, 31526, 12290]\<rparr>]\<rparr>"

definition sb_two_gloss :: node where
  "sb_two_gloss =
     Tag 20 (ustr ''sb-g'') []
       [Tag 21 (ustr ''cl'') []
          [NavigableString (ustr ''by''), Tag 22 (ustr ''chn'') [] [NavigableString [19968]]],
        Tag 23 (ustr ''cl'') []
          [NavigableString (ustr ''in''), Tag 24 (ustr ''chn'') [] [NavigableString [20108]]],
        Tag 25 (ustr ''cl'') [] [NavigableString (ustr ''on'')]]"

definition sb_plain :: node where
  "sb_plain = Tag 30 (ustr ''sb-g'') [] [Tag 31 (ustr ''cl'') [] [NavigableString (ustr ''by'')]]"

text \<open>
  A document whose definition text runs over two lines,
  \<^verbatim>\<open><entry><h>pitch</h><head><def>a high\nsound</def></head><sl-g-blk sl="prep"><sb-g><cl>at</cl></sb-g></sl-g-blk></entry>\<close>,
  the card the extractor makes of it, and two cards of one headword.
\<close>

definition doc_newline :: node where
  "doc_newline =
     Tag 0 (ustr ''[document]'') []
       [Tag 1 (ustr ''entry'') []
          [Tag 2 (ustr ''h'') [] [NavigableString (ustr ''pitch'')],
           Tag 3 (ustr ''head'') []
             [Tag 4 (ustr ''def'') [] [NavigableString (ustr ''a high'' @ [10] @ ustr ''sound'')]],
           Tag 5 (ustr ''sl-g-blk'') [(ustr ''sl'', ustr ''prep'')]
             [Tag 6 (ustr ''sb-g'') []
                [Tag 7 (ustr ''cl'') [] [NavigableString (ustr ''at'')]]]]]"

definition card_newline :: card where
  "card_newline =
     \<lparr>word = ustr ''pitch'', pos = [], sense_num = [],
      def_en = ustr ''a high'' @ [10] @ ustr ''sound'', def_cn = [],
      collocation_groups =
        [\<lparr>category = ustr ''PREP'',
          items = [\<lparr>words = [ustr ''at''], chn = [], examples = []\<rparr>]\<rparr>],
      freq_rank = None\<rparr>"

definition card_pitch1 :: card where
  "card_pitch1 =
     \<lparr>word = ustr ''pitch'', pos = ustr ''noun'', sense_num = ustr ''1'',
      def_en = ustr ''sound'', def_cn = [38899],
      collocation_groups =
        [\<lparr>category = ustr ''PREP'',
          items = [\<lparr>words = [ustr ''at''], chn = [], examples = []\<rparr>]\<rparr>],
      freq_rank = Some (ustr ''42'')\<rparr>"

definition card_pitch2 :: card where
  "card_pitch2 = card_pitch1\<lparr>sense_num := ustr ''2'', def_en := ustr ''field''\<rparr>"

text \<open>
  The entry of the scenario, with a block of idioms before the block of prepositions
  and a \<^verbatim>\<open>verbs\<close> block whose only phrase node holds a gloss and no phrase; an entry
  with nothing but a block of idioms, and the candidate card the extractor drops for
  it; an entry whose \<^verbatim>\<open>h\<close> node is empty,
  \<^verbatim>\<open><entry><h></h><sl-g-blk sl="prep"><sb-g><cl>at</cl></sb-g></sl-g-blk></entry>\<close>,
  and its card.
\<close>

definition doc_accord :: node where
  "doc_accord =
     Tag 0 (ustr ''[document]'') []
       [Tag 1 (ustr ''entry'') []
          [Tag 2 (ustr ''h'') [] [NavigableString (ustr ''accord'')],
           Tag 3 (ustr ''head'') []
             [Tag 4 (ustr ''p-blk'') [] [Tag 5 (ustr ''p'') [] [NavigableString (ustr ''verb'')]],
              Tag 6 (ustr ''n-num'') [] [NavigableString (ustr ''1'')],
              Tag 7 (ustr ''def'') []
                [NavigableString (ustr ''agree ''),
                 Tag 8 (ustr ''chn'') [] [NavigableString [31526, 21512]]]],
           Tag 40 (ustr ''sl-g-blk'') [(ustr ''sl'', ustr ''idm'')]
             [Tag 41 (ustr ''sl-g-head'') [] [NavigableString (ustr ''IDIOMS'')],
              Tag 42 (ustr ''sb-g'') []
                [Tag 43 (ustr ''cl'') [] [NavigableString (ustr ''of your own accord'')]]],
           Tag 50 (ustr ''sl-g-blk'') [(ustr ''sl'', ustr ''prep'')]
             [Tag 51 (ustr ''sl-g-head'') [] [NavigableString ([32] @ ustr ''PREPOSITION'' @ [10, 32])],
              Tag 52 (ustr ''sl-g'') [] [sb_accord]],
           Tag 60 (ustr ''sl-g-blk'') [(ustr ''sl'', ustr ''verbs'')]
             [Tag 61 (ustr ''sb-g'') []
                [Tag 62 (ustr ''cl'') [] [Tag 63 (ustr ''chn'') [] [NavigableString [20165]]]]]]]"

definition card_accord :: card where
  "card_accord =
     \<lparr>word = ustr ''accord'', pos = ustr ''verb'', sense_num = ustr ''1'',
      def_en = ustr ''agree'', def_cn = [31526, 21512],
      collocation_groups = [\<lparr>category = ustr ''PREPOSITION'', items = [item_accord]\<rparr>],
      freq_rank = None\<rparr>"

definition doc_idiom :: node where
  "doc_idiom =
     Tag 0 (ustr ''[document]'') []
       [Tag 1 (ustr ''entry'') []
          [Tag 2 (ustr ''h'') [] [NavigableString (ustr ''accord'')],
           Tag 3 (ustr ''sl-g-blk'') [(ustr ''sl'', ustr ''idm'')]
             [Tag 4 (ustr ''sb-g'') []
                [Tag 5 (ustr ''cl'') [] [NavigableString (ustr ''of your own accord'')]]]]]"

definition candidate_idiom :: card where
  "candidate_idiom =
     \<lparr>word = ustr ''accord'', pos = [], sense_num = [], def_en = [], def_cn = [],
      collocation_groups = [], freq_rank = None\<rparr>"



section \<open>Text of a node after its spans are decomposed\<close>

lemma string_of_decompose_all [simp]: "string_of (decompose_all ns t) = string_of t"
  by (cases t) simp_all

lemma is_tag_decompose_all [simp]: "is_tag ms (decompose_all ns t) = is_tag ms t"
  by (cases t) simp_all

lemma all_strings_Tag:
  "all_strings (Tag i n a cs) = concat (map (\<lambda>c. string_of c @ all_strings c) cs)"
  unfolding all_strings_def by (induction cs) simp_all

lemma strings_excluding_Tag:
  "strings_excluding ns (Tag i n a cs) =
   concat (map (\<lambda>c. if is_tag ns c then [] else string_of c @ strings_excluding ns c) cs)"
  unfolding strings_excluding_def by (induction cs) simp_all

lemma all_strings_decompose_all:
  "all_strings (decompose_all ns t) = strings_excluding ns t"
proof (induction t)
  case (NavigableString s)
  show ?case by (simp add: all_strings_def strings_excluding_def)
next
  case (Tag i n a cs)
  then show ?case
    unfolding decompose_all.simps all_strings_Tag strings_excluding_Tag
    by (induction cs) simp_all
qed

lemma get_text_strip_decompose_all:
  "get_text_strip (decompose_all ns t) = text_excluding ns t"
  by (simp add: get_text_strip_def text_excluding_def all_strings_decompose_all)







lemma cl_step_eq:
  "cl_step c col g =
     (decompose_all [ustr ''chn'', ustr ''chnsep''] c,
      col @ filter (\<lambda>s. s \<noteq> []) [phrase_of c],
      (case gloss_of c of Some t \<Rightarrow> t | None \<Rightarrow> g))"
  by (simp add: cl_step_def phrase_of_def gloss_of_def get_text_strip_decompose_all Let_def
      split: option.splits)

lemma last_gloss_simps [simp]:
  "last_gloss g [] = g" "last_gloss g (x # xs) = last_gloss x xs"
  by (simp_all add: last_gloss_def)

lemma cl_loop_eq:
  "cl_loop cs col g =
     (map (\<lambda>c. if is_tag [ustr ''cl''] c
                then decompose_all [ustr ''chn'', ustr ''chnsep''] c else c) cs,
      col @ filter (\<lambda>s. s \<noteq> []) (map phrase_of (filter (is_tag [ustr ''cl'']) cs)),
      last_gloss g (List.map_filter gloss_of (filter (is_tag [ustr ''cl'']) cs)))"
proof (induction cs arbitrary: col g)
  case Nil
  show ?case by simp
next
  case (Cons c cs)
  show ?case
  proof (cases "is_tag [ustr ''cl''] c")
    case True
    then show ?thesis
      by (cases "gloss_of c") (simp_all add: Cons.IH cl_step_eq)
  next
    case False
    then show ?thesis by (simp add: Cons.IH)
  qed
qed

lemma ustr_cl_neq_x_blk: "ustr ''cl'' \<noteq> ustr ''x-blk''"
  by (simp add: ustr_def)

lemma cl_loop_frame:
  "filter (is_tag [ustr ''x-blk'']) (fst (cl_loop cs col g)) = filter (is_tag [ustr ''x-blk'']) cs"
proof -
  have "\<not> is_tag [ustr ''x-blk''] c" if "is_tag [ustr ''cl''] c" for c
    using that ustr_cl_neq_x_blk by (cases c) auto
  then have "filter (is_tag [ustr ''x-blk''])
      (map (\<lambda>c. if is_tag [ustr ''cl''] c
                then decompose_all [ustr ''chn'', ustr ''chnsep''] c else c) cs) =
     filter (is_tag [ustr ''x-blk'']) cs"
    by (induction cs) auto
  then show ?thesis by (simp add: cl_loop_eq)
qed

lemma x_step_examples: "snd (x_step b exs) = exs @ (case example_of b of Some e \<Rightarrow> [e] | None \<Rightarrow> [])"
  by (simp add: x_step_def example_of_def get_text_strip_decompose_all Let_def
      split: option.splits)

lemma x_loop_examples:
  "snd (x_loop cs exs) =
   exs @ List.map_filter example_of (filter (is_tag [ustr ''x-blk'']) cs)"
proof (induction cs arbitrary: exs)
  case Nil
  show ?case by simp
next
  case (Cons c cs)
  show ?case
  proof (cases "is_tag [ustr ''x-blk''] c")
    case True
    obtain c' exs' where st: "x_step c exs = (c', exs')" by (cases "x_step c exs")
    obtain cs' r where lp: "x_loop cs exs' = (cs', r)" by (cases "x_loop cs exs'")
    have "exs' = exs @ (case example_of c of Some e \<Rightarrow> [e] | None \<Rightarrow> [])"
      using x_step_examples [of c exs] st by simp
    moreover have "r = exs' @ List.map_filter example_of (filter (is_tag [ustr ''x-blk'']) cs)"
      using Cons.IH [of exs'] lp by simp
    ultimately show ?thesis
      using True st lp by (cases "example_of c") simp_all
  next
    case False
    obtain cs' r where lp: "x_loop cs exs = (cs', r)" by (cases "x_loop cs exs")
    then show ?thesis using False Cons.IH [of exs] by simp
  qed
qed

lemma parse_sb_g_eq:
  "fst (parse_sb_g sb) =
     (if sb_words sb = [] then None
      else Some \<lparr>words = sb_words sb, chn = last_gloss [] (sb_glosses sb),
                 examples = sb_examples sb\<rparr>)"
proof (cases sb)
  case (NavigableString s)
  then show ?thesis by (simp add: sb_words_def find_all_direct_def)
next
  case (Tag i n a cs)
  obtain cs2 exs where lp:
    "x_loop (fst (cl_loop cs [] [])) [] = (cs2, exs)"
    by (cases "x_loop (fst (cl_loop cs [] [])) []")
  have "exs = sb_examples sb"
    using x_loop_examples [of "fst (cl_loop cs [] [])" "[]"] lp Tag
    by (simp add: cl_loop_frame sb_examples_def find_all_direct_def)
  then show ?thesis
    using Tag lp
    by (simp add: cl_loop_eq sb_words_def sb_glosses_def find_all_direct_def)
qed

lemmas parser_defs =
  ustr_def isspace_def strip_def find_tag_def find_all_def find_all_direct_def
  all_strings_def get_text_def get_text_strip_def cl_step_def x_step_def Let_def
  strings_excluding_def text_excluding_def has_text_def phrase_of_def gloss_of_def
  example_of_def sb_words_def sb_glosses_def sb_examples_def


section \<open>Properties of the collocation block parser\<close>

text \<open>
  C3: the block parser returns no item exactly when no phrase is left after stripping
  (\<open>sb_words\<close> is empty); an item that is returned holds exactly these phrases, at
  least one, whatever gloss and examples were found.
\<close>

theorem parse_sb_g_item_iff_words:
  "(fst (parse_sb_g sb) = None \<longleftrightarrow> sb_words sb = []) \<and>
   (\<forall>it. fst (parse_sb_g sb) = Some it \<longrightarrow> words it = sb_words sb \<and> words it \<noteq> [])"
  by (auto simp: parse_sb_g_eq)

theorem parse_sb_g_item_iff_words_witness:
  "fst (parse_sb_g sb_plain) = Some \<lparr>words = [ustr ''by''], chn = [], examples = []\<rparr> \<and>
   sb_words sb_plain = [ustr ''by'']"
proof -
  have h: "fst (parse_sb_g sb_plain) = Some \<lparr>words = [ustr ''by''], chn = [], examples = []\<rparr>"
    by (simp add: sb_plain_def parser_defs)
  with parse_sb_g_item_iff_words [of sb_plain] show ?thesis by auto
qed

text \<open>
  C7: an item holds one gloss string; when several phrase nodes carry a \<^verbatim>\<open>chn\<close> span
  it is the gloss of the last of them in document order, and the empty string when
  none does.
\<close>

theorem parse_sb_g_last_gloss:
  "fst (parse_sb_g sb) = Some it \<Longrightarrow>
   chn it = (if sb_glosses sb = [] then [] else last (sb_glosses sb))"
  by (auto simp: parse_sb_g_eq last_gloss_def split: if_splits)

theorem parse_sb_g_last_gloss_witness:
  "fst (parse_sb_g sb_two_gloss) =
     Some \<lparr>words = [ustr ''by'', ustr ''in'', ustr ''on''], chn = [20108], examples = []\<rparr> \<and>
   sb_glosses sb_two_gloss = [[19968], [20108]]"
proof -
  have h: "fst (parse_sb_g sb_two_gloss) =
     Some \<lparr>words = [ustr ''by'', ustr ''in'', ustr ''on''], chn = [20108], examples = []\<rparr>"
    by (simp add: sb_two_gloss_def parser_defs)
  have g: "sb_glosses sb_two_gloss = [[19968], [20108]]"
    by (simp add: sb_two_gloss_def parser_defs)
  from parse_sb_g_last_gloss [OF h] g h show ?thesis by simp
qed



section \<open>Properties of the batch serializer\<close>

lemmas extractor_defs =
  lookup_def attr_get_def KEEP_SL_TYPES_def upper_def call_parse_sb_g_def blk_step_def
  head_fields_def entry_head_def entry_blks_def entry_collect_def entry_step_def
  parse_soup_def parse_collocation_html_def
  render_example_def render_item_def render_group_def
  generate_collocations_html_def card_fields_def

lemma py_split_no_sep: "sep \<notin> set x \<Longrightarrow> py_split sep x = [x]"
  by (induction x) auto

lemma py_split_append:
  "sep \<notin> set x \<Longrightarrow> py_split sep (x @ sep # rest) = x # py_split sep rest"
  by (induction x) auto

lemma py_split_join:
  "xs \<noteq> [] \<Longrightarrow> \<forall>x\<in>set xs. sep \<notin> set x \<Longrightarrow> py_split sep (py_join [sep] xs) = xs"
  by (induction "[sep]" xs rule: py_join.induct) (simp_all add: py_split_no_sep py_split_append)

lemma set_py_join: "set (py_join sep xs) \<subseteq> set sep \<union> \<Union> (set ` set xs)"
  by (induction sep xs rule: py_join.induct) auto

lemma length_card_fields: "length (card_fields c) = 8"
  by (simp add: card_fields_def Let_def)

lemma card_fields_ne: "card_fields c \<noteq> []"
  by (simp add: card_fields_def Let_def)

lemma clean_card_line:
  assumes "clean_card c"
  shows "10 \<notin> set (py_join [9] (card_fields c))"
    and "py_split 9 (py_join [9] (card_fields c)) = card_fields c"
proof -
  have ns: "\<forall>f\<in>set (card_fields c). 9 \<notin> set f \<and> 10 \<notin> set f"
    using assms by (simp add: clean_card_def list_all_iff no_sep_def)
  show "10 \<notin> set (py_join [9] (card_fields c))"
    using set_py_join [of "[9]" "card_fields c"] ns by auto
  show "py_split 9 (py_join [9] (card_fields c)) = card_fields c"
    using ns by (intro py_split_join card_fields_ne) auto
qed

lemma length_py_split: "length (py_split sep xs) = Suc (length (filter (\<lambda>c. c = sep) xs))"
  by (induction xs) (auto split: list.splits)

lemma clean_pitch: "clean_card card_pitch1" "clean_card card_pitch2"
  by (simp_all add: clean_card_def no_sep_def card_pitch1_def card_pitch2_def ustr_def extractor_defs Let_def)

text \<open>
  C2, as amended: for a non-empty sequence of cards none of whose fields, as written,
  holds a tab or a newline, the text splits on newline into one line per card, and each
  line splits on tab into the eight fields word, part of speech, sense number, English
  definition, Chinese definition, fragment without the code points 10 and 13, rank
  string (empty while unset) and the word again.
\<close>

theorem generate_anki_import_file_split:
  assumes "all_cards \<noteq> []" and "list_all clean_card all_cards"
  shows "map (py_split 9) (py_split 10 (generate_anki_import_file all_cards)) =
           map (\<lambda>c. [word c, pos c, sense_num c, def_en c, def_cn c,
                     filter (\<lambda>x. x \<noteq> 13) (filter (\<lambda>x. x \<noteq> 10) (generate_collocations_html c)),
                     (case freq_rank c of Some s \<Rightarrow> s | None \<Rightarrow> []),
                     word c]) all_cards \<and>
         length (py_split 10 (generate_anki_import_file all_cards)) = length all_cards"
proof -
  let ?lines = "map (\<lambda>c. py_join [9] (card_fields c)) all_cards"
  have "\<forall>l\<in>set ?lines. 10 \<notin> set l"
    using assms(2) clean_card_line(1) by (auto simp: list_all_iff)
  moreover have "?lines \<noteq> []" using assms(1) by simp
  ultimately have sp: "py_split 10 (generate_anki_import_file all_cards) = ?lines"
    unfolding generate_anki_import_file_def by (rule py_split_join [rotated])
  have "map (py_split 9) ?lines = map card_fields all_cards"
    using assms(2) clean_card_line(2) by (auto simp: list_all_iff)
  then show ?thesis
    unfolding sp by (simp add: card_fields_def Let_def)
qed

theorem generate_anki_import_file_split_witness:
  "[card_pitch1, card_pitch2] \<noteq> [] \<and> list_all clean_card [card_pitch1, card_pitch2] \<and>
   length (py_split 10 (generate_anki_import_file [card_pitch1, card_pitch2])) = 2 \<and>
   map (\<lambda>l. map (\<lambda>i. l ! i) [0, 1, 2, 3, 4, 6, 7])
     (map (py_split 9) (py_split 10 (generate_anki_import_file [card_pitch1, card_pitch2]))) =
     [[ustr ''pitch'', ustr ''noun'', ustr ''1'', ustr ''sound'', [38899], ustr ''42'',
       ustr ''pitch''],
      [ustr ''pitch'', ustr ''noun'', ustr ''2'', ustr ''field'', [38899], ustr ''42'',
       ustr ''pitch'']]"
proof -
  have c: "list_all clean_card [card_pitch1, card_pitch2]"
    using clean_pitch by simp
  have n: "[card_pitch1, card_pitch2] \<noteq> []" by simp
  show ?thesis
    using generate_anki_import_file_split [OF n c] c
    by (simp add: card_pitch1_def card_pitch2_def)
qed

text \<open>
  The claim as stated fails: no card gives the empty text, which splits into one line,
  not none; and the card of \<open>doc_newline\<close> has a newline in its English definition,
  which the serializer writes as it is, so one card gives two lines.
\<close>

theorem generate_anki_import_file_split_counterexample:
  "length (py_split 10 (generate_anki_import_file [])) \<noteq> length ([] :: card list) \<and>
   parse_collocation_html (\<lambda>_. doc_newline) (ustr ''<entry>'') (ustr ''pitch'') =
     Inr [card_newline] \<and>
   length (py_split 10 (generate_anki_import_file [card_newline])) \<noteq> length [card_newline]"
proof -
  have a: "length (py_split 10 (generate_anki_import_file [])) = 1"
    by (simp add: generate_anki_import_file_def)
  have p: "parse_collocation_html (\<lambda>_. doc_newline) (ustr ''<entry>'') (ustr ''pitch'') =
     Inr [card_newline]"
    by (simp add: doc_newline_def card_newline_def parser_defs extractor_defs)
  have b: "generate_anki_import_file [card_newline] = py_join [9] (card_fields card_newline)"
    by (simp add: generate_anki_import_file_def)
  have c: "length (filter (\<lambda>x. x = 10) (py_join [9] (card_fields card_newline))) = 1"
    by (simp add: card_newline_def card_fields_def generate_collocations_html_def
        render_group_def render_item_def render_example_def ustr_def Let_def)
  have "length (py_split 10 (generate_anki_import_file [card_newline])) = 2"
    unfolding b length_py_split c by simp
  with a p show ?thesis by simp
qed

section \<open>Properties of the sense extractor\<close>

lemma parse_doc_accord:
  "parse_collocation_html (\<lambda>_. doc_accord) (ustr ''<entry>'') (ustr ''accord'') = Inr [card_accord]"
  by (simp add: doc_accord_def card_accord_def sb_accord_def item_accord_def parser_defs extractor_defs)





lemma entry_loop_all:
  assumes step: "\<And>soup r c soup'. entry_step soup w r = Inr (Some c, soup') \<Longrightarrow> P c"
  shows "entry_loop rs soup w cards = Inr (cards', soup') \<Longrightarrow> list_all P cards \<Longrightarrow>
         list_all P cards'"
proof (induction rs arbitrary: soup cards)
  case Nil
  then show ?case by simp
next
  case (Cons r rs)
  show ?case
  proof (cases "entry_step soup w r")
    case (Inl e)
    with Cons.prems show ?thesis by simp
  next
    case (Inr p)
    obtain oc s1 where p: "p = (oc, s1)" by (cases p)
    show ?thesis
    proof (cases oc)
      case None
      with Cons Inr p show ?thesis by simp
    next
      case (Some c)
      have "P c" using step Inr p Some by simp
      with Cons.prems(2) have "list_all P (cards @ [c])" by simp
      moreover have "entry_loop rs s1 w (cards @ [c]) = Inr (cards', soup')"
        using Cons.prems(1) Inr p Some by simp
      ultimately show ?thesis by (rule Cons.IH [rotated])
    qed
  qed
qed

lemma parse_collocation_html_all:
  assumes step: "\<And>soup r c soup'. entry_step soup w r = Inr (Some c, soup') \<Longrightarrow> P c"
    and res: "parse_collocation_html BS html w = Inr cards"
  shows "list_all P cards"
proof (cases "html = []")
  case True
  with res show ?thesis by (simp add: parse_collocation_html_def)
next
  case False
  with res obtain soup' where ps: "parse_soup (BS html) w = Inr (cards, soup')"
    by (auto simp: parse_collocation_html_def split: sum.splits)
  show ?thesis
  proof (cases "map tid (find_all [ustr ''entry''] (BS html)) = []")
    case True
    with ps show ?thesis by (simp add: parse_soup_def)
  next
    case False
    with ps have "entry_loop (map tid (find_all [ustr ''entry''] (BS html))) (BS html) w [] =
      Inr (cards, soup')"
      by (simp add: parse_soup_def Let_def)
    then show ?thesis using entry_loop_all [of w P, OF step] by fastforce
  qed
qed

lemma entry_step_Some:
  "entry_step soup w r = Inr (Some c, soup') \<Longrightarrow>
   entry_collect soup w r = Inr (c, soup') \<and> collocation_groups c \<noteq> []"
  by (auto simp: entry_step_def split: sum.splits if_splits)







text \<open>
  C1: every card that \<^verbatim>\<open>parse_collocation_html\<close> returns has a non-empty list of
  groups; a candidate whose blocks gave no group is dropped, not appended.
\<close>

theorem parse_collocation_html_groups_nonempty:
  "(parse_collocation_html BS html w = Inr cards \<longrightarrow>
      (\<forall>c\<in>set cards. collocation_groups c \<noteq> [])) \<and>
   (entry_collect soup w r = Inr (c, soup') \<and> collocation_groups c = [] \<longrightarrow>
      entry_step soup w r = Inr (None, soup'))"
proof -
  have "list_all (\<lambda>c. collocation_groups c \<noteq> []) cards"
    if "parse_collocation_html BS html w = Inr cards"
    using that by (rule parse_collocation_html_all [rotated]) (simp add: entry_step_Some)
  then show ?thesis
    by (auto simp: list_all_iff entry_step_def)
qed

theorem parse_collocation_html_groups_nonempty_witness:
  "parse_collocation_html (\<lambda>_. doc_accord) (ustr ''<entry>'') (ustr ''accord'') =
     Inr [card_accord] \<and>
   collocation_groups card_accord \<noteq> [] \<and>
   entry_collect doc_idiom (ustr ''accord'') 1 = Inr (candidate_idiom, doc_idiom) \<and>
   collocation_groups candidate_idiom = [] \<and>
   entry_step doc_idiom (ustr ''accord'') 1 = Inr (None, doc_idiom)"
proof -
  have a: "parse_collocation_html (\<lambda>_. doc_accord) (ustr ''<entry>'') (ustr ''accord'') =
     Inr [card_accord]"
    by (rule parse_doc_accord)
  have b: "entry_collect doc_idiom (ustr ''accord'') 1 = Inr (candidate_idiom, doc_idiom)"
    by (simp add: doc_idiom_def candidate_idiom_def parser_defs extractor_defs)
  have c: "collocation_groups candidate_idiom = []"
    by (simp add: candidate_idiom_def)
  from parse_collocation_html_groups_nonempty
    [of "\<lambda>_. doc_accord" "ustr ''<entry>''" "ustr ''accord''" "[card_accord]"
        doc_idiom 1 candidate_idiom doc_idiom]
    a b c
  show ?thesis by simp
qed




















section \<open>The result does not depend on the identities of the objects\<close>

lemma descendants_rename: "descendants (rename f t) = map (rename f) (descendants t)"
proof (induction t)
  case (NavigableString s)
  show ?case by simp
next
  case (Tag i n a cs)
  then show ?case by (induction cs) simp_all
qed

lemma is_tag_rename [simp]: "is_tag ns (rename f t) = is_tag ns t"
  by (cases t) simp_all

lemma string_of_rename [simp]: "string_of (rename f t) = string_of t"
  by (cases t) simp_all

lemma has_tid_rename: "inj f \<Longrightarrow> has_tid (f i) (rename f t) = has_tid i t"
  by (cases t) (simp_all add: inj_eq)

lemma attrs_rename [simp]: "attrs (rename f t) = attrs t"
  by (cases t) simp_all

lemma children_rename [simp]: "children (rename f t) = map (rename f) (children t)"
  by (cases t) simp_all

lemma tid_rename: "is_tag ns t \<Longrightarrow> tid (rename f t) = f (tid t)"
  by (cases t) simp_all

lemma find_map: "List.find P (map g xs) = map_option g (List.find (\<lambda>x. P (g x)) xs)"
  by (induction xs) simp_all

lemma find_all_rename: "find_all ns (rename f t) = map (rename f) (find_all ns t)"
  by (simp add: find_all_def descendants_rename filter_map comp_def)

lemma find_all_direct_rename:
  "find_all_direct n (rename f t) = map (rename f) (find_all_direct n t)"
  by (simp add: find_all_direct_def filter_map comp_def)

lemma find_tag_rename: "find_tag n (rename f t) = map_option (rename f) (find_tag n t)"
  by (simp add: find_tag_def descendants_rename find_map)

lemma all_strings_rename [simp]: "all_strings (rename f t) = all_strings t"
  by (simp add: all_strings_def descendants_rename comp_def)

lemma get_text_rename [simp]: "get_text (rename f t) = get_text t"
  by (simp add: get_text_def)

lemma get_text_strip_rename [simp]: "get_text_strip (rename f t) = get_text_strip t"
  by (simp add: get_text_strip_def)

lemma decompose_all_rename: "decompose_all ns (rename f t) = rename f (decompose_all ns t)"
proof (induction t)
  case (NavigableString s)
  show ?case by simp
next
  case (Tag i n a cs)
  then show ?case by (simp add: filter_map comp_def)
qed

lemma modify_rename:
  "inj f \<Longrightarrow> modify (f i) (\<lambda>_. rename f x) (rename f t) = rename f (modify i (\<lambda>_. x) t)"
proof (induction t)
  case (NavigableString s)
  show ?case by simp
next
  case (Tag j n a cs)
  then show ?case by (simp add: inj_eq)
qed

lemma lookup_rename:
  "inj f \<Longrightarrow> lookup (f i) (rename f s) = map_option (rename f) (lookup i s)"
  unfolding lookup_def
  using find_map [of "has_tid (f i)" "rename f" "s # descendants s"]
  by (simp add: descendants_rename has_tid_rename)

lemma find_tag_is_tag: "find_tag n t = Some x \<Longrightarrow> is_tag [n] x"
  unfolding find_tag_def by (auto simp: find_Some_iff)

lemma cl_step_rename:
  "cl_step (rename f c) col g =
     (case cl_step c col g of (c', r) \<Rightarrow> (rename f c', r))"
  by (simp add: cl_step_def Let_def find_tag_rename decompose_all_rename split: option.splits)

lemma cl_loop_rename:
  "cl_loop (map (rename f) cs) col g =
     (case cl_loop cs col g of (cs', r) \<Rightarrow> (map (rename f) cs', r))"
  by (induction cs arbitrary: col g) (simp_all add: cl_step_rename split: prod.splits)

lemma x_step_rename:
  "inj f \<Longrightarrow> x_step (rename f b) exs =
     (case x_step b exs of (b', r) \<Rightarrow> (rename f b', r))"
proof (cases "find_tag (ustr ''x'') b")
  case None
  then show ?thesis by (simp add: x_step_def find_tag_rename)
next
  case (Some x)
  assume "inj f"
  then show ?thesis
    using Some find_tag_is_tag [OF Some]
    by (simp add: x_step_def Let_def find_tag_rename decompose_all_rename tid_rename
        modify_rename split: option.splits)
qed

lemma x_loop_rename:
  "inj f \<Longrightarrow> x_loop (map (rename f) cs) exs =
     (case x_loop cs exs of (cs', r) \<Rightarrow> (map (rename f) cs', r))"
  by (induction cs arbitrary: exs) (simp_all add: x_step_rename split: prod.splits)

lemma parse_sb_g_rename:
  "inj f \<Longrightarrow> parse_sb_g (rename f sb) =
     (case parse_sb_g sb of (it, sb') \<Rightarrow> (it, rename f sb'))"
  by (cases sb) (simp_all add: cl_loop_rename x_loop_rename split: prod.splits)

lemma call_parse_sb_g_rename:
  "inj f \<Longrightarrow> call_parse_sb_g (rename f soup) (f r) =
     (case call_parse_sb_g soup r of (it, soup') \<Rightarrow> (it, rename f soup'))"
  by (simp add: call_parse_sb_g_def lookup_rename parse_sb_g_rename modify_rename
      split: option.splits prod.splits)

lemma sb_loop_rename:
  "inj f \<Longrightarrow> sb_loop (map f rs) (rename f soup) its =
     (case sb_loop rs soup its of (r, soup') \<Rightarrow> (r, rename f soup'))"
  by (induction rs arbitrary: soup its)
     (simp_all add: call_parse_sb_g_rename split: prod.splits option.splits)

lemma map_tid_find_all_rename:
  "map tid (find_all ns (rename f t)) = map f (map tid (find_all ns t))"
proof -
  have "tid (rename f x) = f (tid x)" if "x \<in> set (find_all ns t)" for x
    using that by (intro tid_rename [of ns]) (simp add: find_all_def)
  then show ?thesis
    by (simp add: find_all_rename)
qed

lemma on_soup_simps [simp]:
  "on_soup f (Inl e) = Inl e" "on_soup f (Inr (x, soup)) = Inr (x, rename f soup)"
  by (simp_all add: on_soup_def)

lemma attr_get_rename [simp]: "attr_get (rename f t) k d = attr_get t k d"
  by (simp add: attr_get_def)

lemma blk_step_rename:
  "inj f \<Longrightarrow> blk_step (rename f soup) (f r) = on_soup f (blk_step soup r)"
  by (simp add: blk_step_def Let_def lookup_rename find_tag_rename map_tid_find_all_rename
      sb_loop_rename del: map_map split: option.splits prod.splits)

lemma blk_loop_rename:
  "inj f \<Longrightarrow> blk_loop (map f rs) (rename f soup) gs = on_soup f (blk_loop rs soup gs)"
  by (induction rs arbitrary: soup gs)
     (simp_all add: blk_step_rename split: sum.splits prod.splits option.splits)

lemma head_fields_rename:
  "inj f \<Longrightarrow> head_fields (rename f soup) (rename f h) =
     (case head_fields soup h of (r, soup') \<Rightarrow> (r, rename f soup'))"
proof (cases "find_tag (ustr ''def'') h")
  case None
  then show ?thesis
    by (simp add: head_fields_def Let_def find_tag_rename split: option.splits)
next
  case (Some d)
  assume "inj f"
  then show ?thesis
    using Some find_tag_is_tag [OF Some]
    by (simp add: head_fields_def Let_def find_tag_rename decompose_all_rename tid_rename
        modify_rename split: option.splits)
qed

lemma entry_head_rename:
  "inj f \<Longrightarrow> entry_head (rename f soup) (rename f entry) =
     (case entry_head soup entry of (r, soup') \<Rightarrow> (r, rename f soup'))"
  by (simp add: entry_head_def find_tag_rename head_fields_rename split: option.splits)

lemma entry_blks_rename:
  "inj f \<Longrightarrow> entry_blks (rename f soup) (f r) = map f (entry_blks soup r)"
  by (simp add: entry_blks_def lookup_rename map_tid_find_all_rename del: map_map
      split: option.splits)

lemma entry_collect_rename:
  assumes "inj f"
  shows "entry_collect (rename f soup) w (f r) = on_soup f (entry_collect soup w r)"
proof (cases "lookup r soup")
  case None
  then show ?thesis
    using assms by (simp add: entry_collect_def lookup_rename)
next
  case (Some entry)
  obtain fs soup1 where hf0: "entry_head soup entry = (fs, soup1)"
    by (cases "entry_head soup entry")
  obtain p sn de dc where fs: "fs = (p, sn, de, dc)"
    by (cases fs) auto
  have hf: "entry_head soup entry = ((p, sn, de, dc), soup1)"
    using hf0 fs by simp
  have hf': "entry_head (rename f soup) (rename f entry) = ((p, sn, de, dc), rename f soup1)"
    using entry_head_rename [OF assms, of soup entry] hf by simp
  have bl: "blk_loop (entry_blks (rename f soup1) (f r)) (rename f soup1) [] =
              on_soup f (blk_loop (entry_blks soup1 r) soup1 [])"
    unfolding entry_blks_rename [OF assms] by (rule blk_loop_rename [OF assms])
  have l: "lookup (f r) (rename f soup) = Some (rename f entry)"
    using Some assms by (simp add: lookup_rename)
  show ?thesis
  proof (cases "blk_loop (entry_blks soup1 r) soup1 []")
    case (Inl e)
    then show ?thesis
      using Some l hf hf' bl by (simp add: entry_collect_def find_tag_rename)
  next
    case (Inr q)
    obtain gs soup2 where q: "q = (gs, soup2)" by (cases q)
    show ?thesis
      using Some l hf hf' bl Inr q
      by (simp add: entry_collect_def find_tag_rename split: option.splits)
  qed
qed

lemma entry_step_rename:
  "inj f \<Longrightarrow> entry_step (rename f soup) w (f r) = on_soup f (entry_step soup w r)"
  by (simp add: entry_step_def entry_collect_rename split: sum.splits prod.splits)

lemma entry_loop_rename:
  "inj f \<Longrightarrow> entry_loop (map f rs) (rename f soup) w cards =
     on_soup f (entry_loop rs soup w cards)"
  by (induction rs arbitrary: soup cards)
     (simp_all add: entry_step_rename split: sum.splits prod.splits option.splits)

lemma parse_soup_rename:
  "inj f \<Longrightarrow> parse_soup (rename f soup) w = on_soup f (parse_soup soup w)"
  by (simp add: parse_soup_def Let_def map_tid_find_all_rename entry_loop_rename del: map_map)

lemma parse_collocation_html_rename:
  "inj f \<Longrightarrow>
   parse_collocation_html (\<lambda>h. rename f (BS h)) html w = parse_collocation_html BS html w"
  by (simp add: parse_collocation_html_def parse_soup_rename on_soup_def
      split: sum.splits prod.splits)

text \<open>
  C9: two calls of \<^verbatim>\<open>parse_collocation_html\<close> on the same markup string and word give
  the same result, card by card and field by field, whatever objects the second parse
  allocates. Each call parses the string into a tree of its own; run again on the tree
  that a call leaves behind, the loop gives other cards (\<open>parse_soup_mutates_tree\<close>).
\<close>

theorem parse_twice_same:
  "inj f \<Longrightarrow> fst (parse_twice BS f html w) = snd (parse_twice BS f html w)"
  by (simp add: parse_twice_def Let_def parse_collocation_html_rename)

theorem parse_twice_same_witness:
  "inj (\<lambda>i::nat. i + 100) \<and>
   parse_twice (\<lambda>_. doc_accord) (\<lambda>i. i + 100) (ustr ''<entry>'') (ustr ''accord'') =
     (Inr [card_accord], Inr [card_accord])"
proof -
  have i: "inj (\<lambda>i::nat. i + 100)" by (simp add: inj_def)
  have "fst (parse_twice (\<lambda>_. doc_accord) (\<lambda>i. i + 100) (ustr ''<entry>'') (ustr ''accord'')) =
          Inr [card_accord]"
    by (simp add: parse_twice_def Let_def parse_doc_accord)
  with parse_twice_same [OF i, of "\<lambda>_. doc_accord" "ustr ''<entry>''" "ustr ''accord''"] i
  show ?thesis by (simp add: prod_eq_iff)
qed

lemma parse_soup_mutates_tree:
  "(case parse_soup doc_accord (ustr ''accord'') of
      Inl e \<Rightarrow> False
    | Inr (cards1, soup1) \<Rightarrow>
        cards1 = [card_accord] \<and> soup1 \<noteq> doc_accord \<and>
        (case parse_soup soup1 (ustr ''accord'') of
           Inl e \<Rightarrow> False
         | Inr (cards2, soup2) \<Rightarrow> map def_cn cards2 = [[]] \<and> cards2 \<noteq> cards1))"
  by (simp add: doc_accord_def card_accord_def sb_accord_def item_accord_def parser_defs extractor_defs)

end
